theory Spec2Isabelle
  imports Main
begin

section \<open>Input units\<close>

text \<open>
  The tokenizer is fed one unit at a time: a character code (a number), or the
  end-of-input sentinel, which is \<open>null\<close> in the source and \<open>None\<close> here.
\<close>

type_synonym code = "int option"

text \<open>
  Modelled from the spec: the table \<open>Codes\<close> of \<open>./constants\<close> is not among the
  sources. The four entries the tokenizer reads are the end-of-input sentinel and the
  character codes of the opening square bracket, the backslash and the closing square
  bracket (91, 92 and 93).
\<close>

definition Codes_EOF :: code where
  "Codes_EOF = None"

definition Codes_openingSquareBracket :: code where
  "Codes_openingSquareBracket = Some 91"

definition Codes_backSlash :: code where
  "Codes_backSlash = Some 92"

definition Codes_closingSquareBracket :: code where
  "Codes_closingSquareBracket = Some 93"

text \<open>
  Modelled from the spec: the classification predicate \<open>markdownLineEnding\<close> of the
  inline-scanning library is not among the sources. It recognises carriage return,
  line feed and CRLF, each one logical unit, which that library encodes as the codes
  \<open>-5\<close>, \<open>-4\<close> and \<open>-3\<close>: every code below \<open>-2\<close>, and never the end-of-input
  sentinel.
\<close>

definition markdownLineEnding :: "code \<Rightarrow> bool" where
  "markdownLineEnding code = (case code of None \<Rightarrow> False | Some n \<Rightarrow> n < - 2)"

section \<open>The effects interface and the closed-over counters\<close>

datatype event = Enter string | Consume code | Exit string

text \<open>
  The two counters \<open>size\<close> and \<open>balance\<close> that the state functions close over, and
  the event stream the effects interface has recorded so far, oldest event first. The
  field for \<open>size\<close> is \<open>size_n\<close>, since HOL has a \<open>size\<close> of its own. The
  fields that \<open>enter\<close> is given for a text chunk (its content type) are not part of
  the events.
\<close>

record tokenizer =
  size_n :: int
  balance :: int
  events :: "event list"

definition enter :: "string \<Rightarrow> tokenizer \<Rightarrow> tokenizer" where
  "enter t s = s\<lparr>events := events s @ [Enter t]\<rparr>"

definition consume :: "code \<Rightarrow> tokenizer \<Rightarrow> tokenizer" where
  "consume c s = s\<lparr>events := events s @ [Consume c]\<rparr>"

definition exit_span :: "string \<Rightarrow> tokenizer \<Rightarrow> tokenizer" where
  "exit_span t s = s\<lparr>events := events s @ [Exit t]\<rparr>"

text \<open>The parameters of \<open>createLabel\<close> other than the effects and the continuations.\<close>

record config =
  type :: string
  markerType :: string
  stringType :: string
  disallowEol :: bool

text \<open>
  What a state function hands back to the driver: the state to feed the next unit to,
  the success continuation \<open>ok\<close> (returned, so it receives the next unit), the result of
  calling the failure continuation \<open>nok\<close> on the current unit, or the exception of
  \<open>start\<close>.
\<close>

datatype state_fn = S_start | S_afterStart | S_atBreak | S_label | S_labelEscape

datatype outcome = Next state_fn | Ok | Nok code | Thrown

section \<open>The state functions\<close>

text \<open>
  \<open>code === Codes.closingSquareBracket && !balance--\<close>: the right operand runs only
  for a closing bracket; it tests the old value and leaves the counter one lower.
\<close>

definition closing_and_post_decrement :: "code \<Rightarrow> tokenizer \<Rightarrow> bool \<times> tokenizer" where
  "closing_and_post_decrement code s =
     (if code = Codes_closingSquareBracket
      then (balance s = 0, s\<lparr>balance := balance s - 1\<rparr>)
      else (False, s))"

text \<open>
  \<open>code === Codes.openingSquareBracket && ++balance > 3\<close>: the right operand runs only
  for an opening bracket; it raises the counter and tests the new value.
\<close>

definition opening_and_pre_increment :: "code \<Rightarrow> tokenizer \<Rightarrow> bool \<times> tokenizer" where
  "opening_and_pre_increment code s =
     (if code = Codes_openingSquareBracket
      then (balance s + 1 > 3, s\<lparr>balance := balance s + 1\<rparr>)
      else (False, s))"

definition start :: "config \<Rightarrow> code \<Rightarrow> tokenizer \<Rightarrow> outcome \<times> tokenizer" where
  "start cfg code s =
     (if code \<noteq> Codes_openingSquareBracket then (Thrown, s)
      else (Next S_afterStart,
            exit_span (markerType cfg) (consume code
              (enter (markerType cfg) (enter (type cfg) s)))))"

definition atClosingBrace :: "config \<Rightarrow> code \<Rightarrow> tokenizer \<Rightarrow> outcome \<times> tokenizer" where
  "atClosingBrace cfg code s =
     (Ok, exit_span (type cfg) (exit_span (markerType cfg) (consume code
            (enter (markerType cfg) (exit_span (stringType cfg) s)))))"

text \<open>
  \<open>atBreak\<close> and \<open>label\<close> call each other: \<open>atBreak\<close> falls into \<open>label\<close> to open a
  text chunk, \<open>label\<close> hands end-of-input, line endings and the size ceiling back to
  \<open>atBreak\<close>.
\<close>

function atBreak :: "config \<Rightarrow> code \<Rightarrow> tokenizer \<Rightarrow> outcome \<times> tokenizer"
  and label :: "config \<Rightarrow> code \<Rightarrow> tokenizer \<Rightarrow> outcome \<times> tokenizer"
where
  "atBreak cfg code s =
     (if code = Codes_EOF \<or> size_n s > 999 then (Nok code, s)
      else case closing_and_post_decrement code s of (closes, s1) \<Rightarrow>
        if closes then atClosingBrace cfg code s1
        else if markdownLineEnding code
          then (if disallowEol cfg then (Nok code, s1)
                else (Next S_atBreak,
                      exit_span ''lineEnding'' (consume code (enter ''lineEnding'' s1))))
        else label cfg code (enter ''chunkText'' s1))"
| "label cfg code s =
     (if code = Codes_EOF \<or> markdownLineEnding code \<or> size_n s > 999
        then atBreak cfg code (exit_span ''chunkText'' s)
      else case opening_and_pre_increment code s of (too_deep, s1) \<Rightarrow>
        if too_deep then (Nok code, s1)
        else case closing_and_post_decrement code s1 of (closes, s2) \<Rightarrow>
          if closes then atClosingBrace cfg code (exit_span ''chunkText'' s2)
          else (if code = Codes_backSlash then Next S_labelEscape else Next S_label,
                consume code s2))"
  by pat_completeness auto
termination
  by (relation "measure (\<lambda>x. case x of
          Inl (cfg, code, s) \<Rightarrow>
            (if code = Codes_EOF \<or> markdownLineEnding code \<or> size_n s > 999 then 0 else 2)
        | Inr (cfg, code, s) \<Rightarrow> 1)")
     (auto simp: closing_and_post_decrement_def enter_def exit_span_def split: if_splits)

declare atBreak.simps [simp del] label.simps [simp del]

definition afterStart :: "config \<Rightarrow> code \<Rightarrow> tokenizer \<Rightarrow> outcome \<times> tokenizer" where
  "afterStart cfg code s =
     (if code = Codes_closingSquareBracket
      then (Ok, exit_span (type cfg) (exit_span (markerType cfg) (consume code
                  (enter (markerType cfg) s))))
      else atBreak cfg code (enter (stringType cfg) s))"

definition labelEscape :: "config \<Rightarrow> code \<Rightarrow> tokenizer \<Rightarrow> outcome \<times> tokenizer" where
  "labelEscape cfg code s =
     (if code = Codes_openingSquareBracket \<or> code = Codes_backSlash
         \<or> code = Codes_closingSquareBracket
      then (Next S_label, (consume code s)\<lparr>size_n := size_n (consume code s) + 1\<rparr>)
      else label cfg code s)"

section \<open>The driver\<close>

text \<open>Feeding one unit to the state function that is current.\<close>

fun feed :: "config \<Rightarrow> state_fn \<Rightarrow> code \<Rightarrow> tokenizer \<Rightarrow> outcome \<times> tokenizer" where
  "feed cfg S_start code s = start cfg code s"
| "feed cfg S_afterStart code s = afterStart cfg code s"
| "feed cfg S_atBreak code s = atBreak cfg code s"
| "feed cfg S_label code s = label cfg code s"
| "feed cfg S_labelEscape code s = labelEscape cfg code s"

text \<open>
  The caller's scanning loop: it feeds the units in order to the current state function
  until one of them hands control to a continuation or throws; the units after that one
  are no longer the tokenizer's. When the input runs out first, the result is the state
  function that waits for the next unit.
\<close>

fun run :: "config \<Rightarrow> state_fn \<Rightarrow> tokenizer \<Rightarrow> code list \<Rightarrow> outcome \<times> tokenizer" where
  "run cfg st s [] = (Next st, s)"
| "run cfg st s (c # cs) =
     (case feed cfg st c s of
        (Next st', s') \<Rightarrow> run cfg st' s' cs
      | (out, s') \<Rightarrow> (out, s'))"

text \<open>\<open>createLabel\<close> sets both counters to zero and returns \<open>start\<close>.\<close>

definition createLabel :: "state_fn \<times> tokenizer" where
  "createLabel = (S_start, \<lparr>size_n = 0, balance = 0, events = []\<rparr>)"

definition tokenize :: "config \<Rightarrow> code list \<Rightarrow> outcome \<times> tokenizer" where
  "tokenize cfg cs = run cfg (fst createLabel) (snd createLabel) cs"

section \<open>Span trees\<close>

text \<open>
  Reading an event stream against the stack of spans that are open, innermost first:
  an enter pushes its type, an exit must name the innermost open span and pops it, a
  consume leaves the stack alone. \<open>None\<close> means an exit named a span that was not the
  innermost open one.
\<close>

fun span_step :: "string list option \<Rightarrow> event \<Rightarrow> string list option" where
  "span_step None e = None"
| "span_step (Some stack) (Enter t) = Some (t # stack)"
| "span_step (Some stack) (Consume c) = Some stack"
| "span_step (Some []) (Exit t) = None"
| "span_step (Some (u # stack)) (Exit t) = (if u = t then Some stack else None)"

definition open_spans :: "event list \<Rightarrow> string list option" where
  "open_spans es = foldl span_step (Some []) es"

definition well_nested :: "event list \<Rightarrow> bool" where
  "well_nested es = (open_spans es = Some [])"

text \<open>The units consumed so far, in order.\<close>

fun consumed :: "event list \<Rightarrow> code list" where
  "consumed [] = []"
| "consumed (Consume c # es) = c # consumed es"
| "consumed (e # es) = consumed es"

section \<open>What holds at every point of a run\<close>

text \<open>The spans that are open while a state function waits for the next unit.\<close>

fun expected_open :: "config \<Rightarrow> state_fn \<Rightarrow> string list" where
  "expected_open cfg S_start = []"
| "expected_open cfg S_afterStart = [type cfg]"
| "expected_open cfg S_atBreak = [stringType cfg, type cfg]"
| "expected_open cfg S_label = [''chunkText'', stringType cfg, type cfg]"
| "expected_open cfg S_labelEscape = [''chunkText'', stringType cfg, type cfg]"

text \<open>The values the counters can have while a state function waits for the next unit.\<close>

fun counters_ok :: "state_fn \<Rightarrow> tokenizer \<Rightarrow> bool" where
  "counters_ok S_start s = (size_n s = 0 \<and> balance s = 0)"
| "counters_ok S_afterStart s = (size_n s = 0 \<and> balance s = 0)"
| "counters_ok S_labelEscape s =
     (0 \<le> size_n s \<and> size_n s \<le> 999 \<and> 0 \<le> balance s \<and> balance s \<le> 3)"
| "counters_ok st s = (0 \<le> size_n s \<and> 0 \<le> balance s \<and> balance s \<le> 3)"

text \<open>
  What is true of the counters and of the event stream for each way a run can stand:
  waiting in a state, handed to \<open>ok\<close>, handed to \<open>nok\<close>, or thrown.
\<close>

fun reached :: "config \<Rightarrow> outcome \<Rightarrow> tokenizer \<Rightarrow> bool" where
  "reached cfg (Next st) s =
     (open_spans (events s) = Some (expected_open cfg st) \<and> counters_ok st s)"
| "reached cfg Ok s =
     (open_spans (events s) = Some [] \<and> (balance s = - 1 \<or> balance s = 0))"
| "reached cfg (Nok c) s =
     (if balance s = 4
      then open_spans (events s) = Some [''chunkText'', stringType cfg, type cfg]
           \<and> c = Codes_openingSquareBracket
      else open_spans (events s) = Some [stringType cfg, type cfg]
           \<and> 0 \<le> balance s \<and> balance s \<le> 3)"
| "reached cfg Thrown s = (open_spans (events s) = Some [] \<and> balance s = 0)"

text \<open>
  An ordinary content unit: a character that is neither a bracket nor a backslash nor a
  line ending, and not the end of input.
\<close>

definition ordinary :: "code \<Rightarrow> bool" where
  "ordinary c =
     (c \<noteq> Codes_EOF \<and> \<not> markdownLineEnding c \<and> c \<noteq> Codes_openingSquareBracket
      \<and> c \<noteq> Codes_backSlash \<and> c \<noteq> Codes_closingSquareBracket)"

text \<open>\<open>n\<close> escaped closing brackets, each a backslash and the bracket after it.\<close>

definition escaped_brackets :: "nat \<Rightarrow> code list" where
  "escaped_brackets n = concat (replicate n [Codes_backSlash, Codes_closingSquareBracket])"

section \<open>Basic facts\<close>

lemmas Codes_defs =
  Codes_EOF_def Codes_openingSquareBracket_def Codes_backSlash_def
  Codes_closingSquareBracket_def

lemma open_spans_Nil [simp]: "open_spans [] = Some []"
  by (simp add: open_spans_def)

lemma open_spans_append [simp]:
  "open_spans (es @ fs) = foldl span_step (open_spans es) fs"
  by (simp add: open_spans_def)

lemmas state_fn_defs =
  start_def afterStart_def labelEscape_def atClosingBrace_def
  closing_and_post_decrement_def opening_and_pre_increment_def
  enter_def exit_span_def consume_def

lemmas unfold_all =
  state_fn_defs atBreak.simps label.simps Codes_defs markdownLineEnding_def

lemmas tokenize_eval = tokenize_def createLabel_def unfold_all

lemma atBreak_reached:
  "reached cfg (Next S_atBreak) s \<Longrightarrow> atBreak cfg c s = (out, s') \<Longrightarrow> reached cfg out s'"
  by (auto simp: unfold_all split: if_splits option.splits)

lemma label_reached:
  "reached cfg (Next S_label) s \<Longrightarrow> label cfg c s = (out, s') \<Longrightarrow> reached cfg out s'"
  by (auto simp: unfold_all split: if_splits option.splits)

lemma feed_reached:
  assumes "reached cfg (Next st) s" and "feed cfg st c s = (out, s')"
  shows "reached cfg out s'"
proof (cases st)
  case S_atBreak
  with assms show ?thesis using atBreak_reached by simp
next
  case S_label
  with assms show ?thesis using label_reached by simp
qed (use assms in \<open>auto simp: unfold_all split: if_splits option.splits\<close>)

lemma run_reached:
  "reached cfg (Next st) s \<Longrightarrow> run cfg st s cs = (out, s') \<Longrightarrow> reached cfg out s'"
proof (induction cs arbitrary: st s)
  case Nil
  then show ?case by auto
next
  case (Cons c cs)
  obtain o1 s1 where f: "feed cfg st c s = (o1, s1)"
    by (cases "feed cfg st c s")
  with Cons.prems(1) have r1: "reached cfg o1 s1"
    by (rule feed_reached)
  show ?case
  proof (cases o1)
    case (Next st1)
    with Cons.prems(2) f have "run cfg st1 s1 cs = (out, s')"
      by simp
    with r1 Next show ?thesis
      using Cons.IH by blast
  qed (use Cons.prems(2) f r1 in auto)
qed

lemma tokenize_reached:
  assumes "tokenize cfg cs = (out, s)"
  shows "reached cfg out s"
proof -
  have "reached cfg (Next S_start) (snd createLabel)"
    by (simp add: createLabel_def)
  with assms show ?thesis
    unfolding tokenize_def createLabel_def fst_conv by (rule run_reached [rotated])
qed

text \<open>
  In a stream the stack reading accepts, each span type has been entered as often as
  it has been exited, plus once for every span of that type still open.
\<close>

lemma open_spans_counts:
  "open_spans es = Some stack \<Longrightarrow>
     count_list es (Enter t) = count_list es (Exit t) + count_list stack t"
proof (induction es arbitrary: stack rule: rev_induct)
  case Nil
  then show ?case by simp
next
  case (snoc e es)
  from snoc.prems obtain stack0 where s0: "open_spans es = Some stack0"
    by (cases "open_spans es") auto
  note ih = snoc.IH [OF s0]
  show ?case
  proof (cases e)
    case (Enter u)
    with snoc.prems s0 ih show ?thesis by auto
  next
    case (Consume c)
    with snoc.prems s0 ih show ?thesis by auto
  next
    case (Exit u)
    with snoc.prems s0 ih show ?thesis
      by (cases stack0) (auto split: if_splits)
  qed
qed

section \<open>Running on a longer input\<close>

lemma consumed_append [simp]: "consumed (es @ fs) = consumed es @ consumed fs"
  by (induction es rule: consumed.induct) simp_all

lemma run_append:
  "run cfg st s (xs @ ys) =
     (case run cfg st s xs of (Next st', s') \<Rightarrow> run cfg st' s' ys | (out, s') \<Rightarrow> (out, s'))"
proof (induction xs arbitrary: st s)
  case Nil
  show ?case by simp
next
  case (Cons c xs)
  show ?case
  proof (cases "feed cfg st c s")
    case (Pair o1 s1)
    with Cons.IH show ?thesis by (cases o1) simp_all
  qed
qed

lemma tokenize_append:
  "tokenize cfg cs = (Next st, s) \<Longrightarrow> tokenize cfg (cs @ ys) = run cfg st s ys"
  by (simp add: tokenize_def run_append)

lemma feed_not_start: "feed cfg st c s = (Next st', s') \<Longrightarrow> st' \<noteq> S_start"
  by (cases st) (auto simp: unfold_all split: if_splits option.splits)

lemma run_not_start:
  "run cfg st s cs = (Next st', s') \<Longrightarrow> cs \<noteq> [] \<Longrightarrow> st' \<noteq> S_start"
proof (induction cs arbitrary: st s)
  case Nil
  then show ?case by simp
next
  case (Cons c cs)
  obtain o1 s1 where f: "feed cfg st c s = (o1, s1)"
    by (cases "feed cfg st c s")
  show ?case
  proof (cases o1)
    case (Next st1)
    with f have n1: "st1 \<noteq> S_start" using feed_not_start by blast
    from Next f Cons.prems(1) have r: "run cfg st1 s1 cs = (Next st', s')" by simp
    show ?thesis
    proof (cases cs)
      case Nil
      with r n1 show ?thesis by simp
    next
      case (Cons d ds)
      with r Cons.IH show ?thesis by blast
    qed
  qed (use Cons.prems(1) f in auto)
qed

lemma tokenize_not_start:
  "tokenize cfg cs = (Next st, s) \<Longrightarrow> cs \<noteq> [] \<Longrightarrow> st \<noteq> S_start"
  unfolding tokenize_def by (rule run_not_start)

lemma feed_EOF:
  "st \<noteq> S_start \<Longrightarrow>
   feed cfg st Codes_EOF s =
     (Nok Codes_EOF,
      s\<lparr>events := events s @
          (case st of S_afterStart \<Rightarrow> [Enter (stringType cfg)] | S_atBreak \<Rightarrow> []
           | _ \<Rightarrow> [Exit ''chunkText''])\<rparr>)"
  by (cases st) (simp_all add: unfold_all)

lemma feed_size_ceiling:
  "999 < size_n s \<Longrightarrow> st = S_atBreak \<or> st = S_label \<Longrightarrow>
   feed cfg st c s =
     (Nok c, s\<lparr>events := events s @ (if st = S_label then [Exit ''chunkText''] else [])\<rparr>)"
  by (auto simp: unfold_all)

lemma feed_line_ending:
  "markdownLineEnding c \<Longrightarrow> st \<noteq> S_start \<Longrightarrow>
   feed cfg st c s =
     (if 999 < size_n s \<or> disallowEol cfg then Nok c else Next S_atBreak,
      s\<lparr>events := events s @
          (case st of S_afterStart \<Rightarrow> [Enter (stringType cfg)] | S_atBreak \<Rightarrow> []
           | _ \<Rightarrow> [Exit ''chunkText'']) @
          (if 999 < size_n s \<or> disallowEol cfg then []
           else [Enter ''lineEnding'', Consume c, Exit ''lineEnding''])\<rparr>)"
  by (cases st) (auto simp: unfold_all split: option.splits)

lemma run_escaped_brackets:
  "size_n s + int n \<le> 1000 \<Longrightarrow>
   run cfg S_label s (escaped_brackets n) =
     (Next S_label,
      s\<lparr>size_n := size_n s + int n,
        events := events s @
          concat (replicate n [Consume Codes_backSlash, Consume Codes_closingSquareBracket])\<rparr>)"
proof (induction n arbitrary: s)
  case 0
  show ?case by (simp add: escaped_brackets_def)
next
  case (Suc n)
  let ?s1 = "s\<lparr>events := events s @ [Consume Codes_backSlash, Consume Codes_closingSquareBracket],
        size_n := size_n s + 1\<rparr>"
  from Suc.prems have le: "size_n s \<le> 999" by simp
  have step: "run cfg S_label s (escaped_brackets (Suc n)) = run cfg S_label ?s1 (escaped_brackets n)"
    using le by (simp add: escaped_brackets_def unfold_all)
  from Suc.prems have "size_n ?s1 + int n \<le> 1000" by simp
  from Suc.IH [OF this] step show ?case by simp
qed

lemma run_ordinary:
  "\<forall>c\<in>set xs. ordinary c \<Longrightarrow> size_n s \<le> 999 \<Longrightarrow>
   run cfg S_label s xs = (Next S_label, s\<lparr>events := events s @ map Consume xs\<rparr>)"
proof (induction xs arbitrary: s)
  case Nil
  show ?case by simp
next
  case (Cons c xs)
  from Cons.prems have "ordinary c" by simp
  with Cons.prems(2) have "feed cfg S_label c s = (Next S_label, s\<lparr>events := events s @ [Consume c]\<rparr>)"
    by (auto simp: ordinary_def unfold_all)
  with Cons show ?case by simp
qed

lemma tokenize_escaped_brackets:
  "n \<le> 1000 \<Longrightarrow>
   tokenize cfg ([Codes_openingSquareBracket, Some 97] @ escaped_brackets n) =
     (Next S_label,
      \<lparr>size_n = int n, balance = 0,
        events = [Enter (type cfg), Enter (markerType cfg), Consume Codes_openingSquareBracket,
                  Exit (markerType cfg), Enter (stringType cfg), Enter ''chunkText'',
                  Consume (Some 97)] @
          concat (replicate n [Consume Codes_backSlash, Consume Codes_closingSquareBracket])\<rparr>)"
proof -
  assume n: "n \<le> 1000"
  let ?s0 = "\<lparr>size_n = 0, balance = 0,
        events = [Enter (type cfg), Enter (markerType cfg), Consume Codes_openingSquareBracket,
                  Exit (markerType cfg), Enter (stringType cfg), Enter ''chunkText'',
                  Consume (Some 97)]\<rparr>"
  have "tokenize cfg [Codes_openingSquareBracket, Some 97] = (Next S_label, ?s0)"
    by (simp add: tokenize_eval)
  then have "tokenize cfg ([Codes_openingSquareBracket, Some 97] @ escaped_brackets n)
               = run cfg S_label ?s0 (escaped_brackets n)"
    by (rule tokenize_append)
  moreover from n have "size_n ?s0 + int n \<le> 1000"
    by simp
  ultimately show ?thesis
    by (simp add: run_escaped_brackets)
qed

lemma tokenize_size_ceiling:
  assumes "tokenize cfg cs = (Next st, s)" and "999 < size_n s"
  shows "fst (tokenize cfg (cs @ c # rest)) = Nok c"
proof -
  from assms(1) have "reached cfg (Next st) s"
    by (rule tokenize_reached)
  with assms(2) have st: "st = S_atBreak \<or> st = S_label"
    by (cases st) simp_all
  have "tokenize cfg (cs @ c # rest) = run cfg st s (c # rest)"
    using assms(1) by (rule tokenize_append)
  then show ?thesis
    using feed_size_ceiling [OF assms(2) st, of cfg c] by simp
qed

lemma tokenize_opening_bracket:
  assumes "tokenize cfg cs = (Next st, s)"
    and "st = S_afterStart \<or> st = S_atBreak \<or> st = S_label"
    and "size_n s \<le> 999"
  shows "fst (tokenize cfg (cs @ [Codes_openingSquareBracket])) =
           (if balance s = 3 then Nok Codes_openingSquareBracket else Next S_label)"
    and "balance (snd (tokenize cfg (cs @ [Codes_openingSquareBracket]))) = balance s + 1"
    and "consumed (events (snd (tokenize cfg (cs @ [Codes_openingSquareBracket])))) =
           consumed (events s) @ (if balance s = 3 then [] else [Codes_openingSquareBracket])"
proof -
  from assms(1) have "reached cfg (Next st) s"
    by (rule tokenize_reached)
  with assms(2) have b: "0 \<le> balance s" "balance s \<le> 3"
    by auto
  have t: "tokenize cfg (cs @ [Codes_openingSquareBracket])
             = run cfg st s [Codes_openingSquareBracket]"
    using assms(1) by (rule tokenize_append)
  from assms(2,3) b
  show "fst (tokenize cfg (cs @ [Codes_openingSquareBracket])) =
           (if balance s = 3 then Nok Codes_openingSquareBracket else Next S_label)"
    unfolding t by (auto simp: unfold_all)
  from assms(2,3) b
  show "balance (snd (tokenize cfg (cs @ [Codes_openingSquareBracket]))) = balance s + 1"
    unfolding t by (auto simp: unfold_all)
  from assms(2,3) b
  show "consumed (events (snd (tokenize cfg (cs @ [Codes_openingSquareBracket])))) =
           consumed (events s) @ (if balance s = 3 then [] else [Codes_openingSquareBracket])"
    unfolding t by (auto simp: unfold_all)
qed

section \<open>Well-formedness of the emitted spans\<close>

text \<open>
  C4: for every input on which the tokenizer reaches the success continuation, the
  events emitted on the effects interface are balanced and strictly nested: read
  against the stack of open spans, every exit names the innermost open span and no
  span is left open at the end, and each span type has been entered exactly as often
  as it has been exited.
\<close>

theorem successful_parse_spans_balanced_and_nested:
  assumes "tokenize cfg cs = (Ok, s)"
  shows "well_nested (events s)
     \<and> count_list (events s) (Enter t) = count_list (events s) (Exit t)"
proof -
  from assms have "reached cfg Ok s"
    by (rule tokenize_reached)
  then have o: "open_spans (events s) = Some []"
    by simp
  from open_spans_counts [OF o, of t] o show ?thesis
    by (simp add: well_nested_def)
qed

theorem successful_parse_spans_balanced_and_nested_witness:
  "tokenize \<lparr>type = ''label'', markerType = ''marker'', stringType = ''string'',
             disallowEol = False\<rparr>
     [Codes_openingSquareBracket, Some 97, Codes_openingSquareBracket, Some 98,
      Codes_closingSquareBracket, Codes_closingSquareBracket]
   = (Ok, \<lparr>size_n = 0, balance = - 1, events =
       [Enter ''label'', Enter ''marker'', Consume (Some 91), Exit ''marker'',
        Enter ''string'', Enter ''chunkText'', Consume (Some 97), Consume (Some 91),
        Consume (Some 98), Consume (Some 93), Exit ''chunkText'', Exit ''string'',
        Enter ''marker'', Consume (Some 93), Exit ''marker'', Exit ''label'']\<rparr>)
   \<and> well_nested
       [Enter ''label'', Enter ''marker'', Consume (Some 91), Exit ''marker'',
        Enter ''string'', Enter ''chunkText'', Consume (Some 97), Consume (Some 91),
        Consume (Some 98), Consume (Some 93), Exit ''chunkText'', Exit ''string'',
        Enter ''marker'', Consume (Some 93), Exit ''marker'', Exit ''label'']"
proof -
  let ?cfg = "\<lparr>type = ''label'', markerType = ''marker'', stringType = ''string'',
             disallowEol = False\<rparr>"
  let ?cs = "[Codes_openingSquareBracket, Some 97, Codes_openingSquareBracket, Some 98,
      Codes_closingSquareBracket, Codes_closingSquareBracket]"
  let ?s = "\<lparr>size_n = 0, balance = - 1, events =
       [Enter ''label'', Enter ''marker'', Consume (Some 91), Exit ''marker'',
        Enter ''string'', Enter ''chunkText'', Consume (Some 97), Consume (Some 91),
        Consume (Some 98), Consume (Some 93), Exit ''chunkText'', Exit ''string'',
        Enter ''marker'', Consume (Some 93), Exit ''marker'', Exit ''label'']\<rparr>"
  have h: "tokenize ?cfg ?cs = (Ok, ?s)"
    by (simp add: tokenize_eval)
  from successful_parse_spans_balanced_and_nested [OF h] h show ?thesis
    by simp
qed

text \<open>
  C10: when the tokenizer reaches the failure continuation, the event stream emitted up
  to that call is unbalanced. The label span and the content-string span are open and
  have fewer exits than enters; on the depth-overflow path, where the balance counter
  has reached 4 on an opening bracket, the text-chunk span is open as well. On the
  other failure paths the text chunk, if one was open, has been exited before the
  hand-off to \<open>atBreak\<close>; the spans named above get no exit and nothing emitted is
  rolled back.
\<close>

theorem failed_parse_leaves_spans_open:
  assumes "tokenize cfg cs = (Nok c, s)"
  shows "open_spans (events s) =
           Some (if balance s = 4 then [''chunkText'', stringType cfg, type cfg]
                 else [stringType cfg, type cfg])
     \<and> \<not> well_nested (events s)
     \<and> count_list (events s) (Exit (type cfg)) < count_list (events s) (Enter (type cfg))
     \<and> count_list (events s) (Exit (stringType cfg))
         < count_list (events s) (Enter (stringType cfg))
     \<and> (if balance s = 4
        then c = Codes_openingSquareBracket
           \<and> count_list (events s) (Exit ''chunkText'')
               < count_list (events s) (Enter ''chunkText'')
        else 0 \<le> balance s \<and> balance s \<le> 3)"
proof -
  let ?stack = "if balance s = 4 then [''chunkText'', stringType cfg, type cfg]
                 else [stringType cfg, type cfg]"
  from assms have r: "reached cfg (Nok c) s"
    by (rule tokenize_reached)
  then have o: "open_spans (events s) = Some ?stack"
    by (simp split: if_splits)
  have "\<not> well_nested (events s)"
    using o by (simp add: well_nested_def)
  moreover from open_spans_counts [OF o, of "type cfg"]
  have "count_list (events s) (Exit (type cfg)) < count_list (events s) (Enter (type cfg))"
    by simp
  moreover from open_spans_counts [OF o, of "stringType cfg"]
  have "count_list (events s) (Exit (stringType cfg))
         < count_list (events s) (Enter (stringType cfg))"
    by simp
  moreover from open_spans_counts [OF o, of "''chunkText''"] r
  have "if balance s = 4
        then c = Codes_openingSquareBracket
           \<and> count_list (events s) (Exit ''chunkText'')
               < count_list (events s) (Enter ''chunkText'')
        else 0 \<le> balance s \<and> balance s \<le> 3"
    by (simp split: if_splits)
  ultimately show ?thesis
    using o by blast
qed

theorem failed_parse_leaves_spans_open_witness:
  "tokenize \<lparr>type = ''label'', markerType = ''marker'', stringType = ''string'',
             disallowEol = False\<rparr> [Codes_openingSquareBracket, Some 97, Codes_EOF]
   = (Nok Codes_EOF, \<lparr>size_n = 0, balance = 0, events =
       [Enter ''label'', Enter ''marker'', Consume (Some 91), Exit ''marker'',
        Enter ''string'', Enter ''chunkText'', Consume (Some 97), Exit ''chunkText'']\<rparr>)
   \<and> open_spans
       [Enter ''label'', Enter ''marker'', Consume (Some 91), Exit ''marker'',
        Enter ''string'', Enter ''chunkText'', Consume (Some 97), Exit ''chunkText'']
     = Some [''string'', ''label'']
   \<and> tokenize \<lparr>type = ''label'', markerType = ''marker'', stringType = ''string'',
             disallowEol = False\<rparr>
       [Codes_openingSquareBracket, Codes_openingSquareBracket, Codes_openingSquareBracket,
        Codes_openingSquareBracket, Codes_openingSquareBracket]
   = (Nok Codes_openingSquareBracket, \<lparr>size_n = 0, balance = 4, events =
       [Enter ''label'', Enter ''marker'', Consume (Some 91), Exit ''marker'',
        Enter ''string'', Enter ''chunkText'', Consume (Some 91), Consume (Some 91),
        Consume (Some 91)]\<rparr>)
   \<and> open_spans
       [Enter ''label'', Enter ''marker'', Consume (Some 91), Exit ''marker'',
        Enter ''string'', Enter ''chunkText'', Consume (Some 91), Consume (Some 91),
        Consume (Some 91)]
     = Some [''chunkText'', ''string'', ''label'']"
proof -
  let ?cfg = "\<lparr>type = ''label'', markerType = ''marker'', stringType = ''string'',
             disallowEol = False\<rparr>"
  let ?s1 = "\<lparr>size_n = 0, balance = 0, events =
       [Enter ''label'', Enter ''marker'', Consume (Some 91), Exit ''marker'',
        Enter ''string'', Enter ''chunkText'', Consume (Some 97), Exit ''chunkText'']\<rparr>"
  let ?s2 = "\<lparr>size_n = 0, balance = 4, events =
       [Enter ''label'', Enter ''marker'', Consume (Some 91), Exit ''marker'',
        Enter ''string'', Enter ''chunkText'', Consume (Some 91), Consume (Some 91),
        Consume (Some 91)]\<rparr>"
  have h1: "tokenize ?cfg [Codes_openingSquareBracket, Some 97, Codes_EOF]
              = (Nok Codes_EOF, ?s1)"
    by (simp add: tokenize_eval)
  have h2: "tokenize ?cfg
       [Codes_openingSquareBracket, Codes_openingSquareBracket, Codes_openingSquareBracket,
        Codes_openingSquareBracket, Codes_openingSquareBracket]
              = (Nok Codes_openingSquareBracket, ?s2)"
    by (simp add: tokenize_eval)
  from failed_parse_leaves_spans_open [OF h1] failed_parse_leaves_spans_open [OF h2] h1 h2
  show ?thesis
    by simp
qed

section \<open>The balance counter\<close>

text \<open>
  C2, as amended: at every point of a run the balance counter lies between \<open>-1\<close> and
  \<open>4\<close>. It lies between \<open>0\<close> and \<open>3\<close> whenever a state function waits for a
  further unit. It is \<open>-1\<close> or \<open>0\<close> once the success continuation has been
  reached, and it is \<open>4\<close> only after the failure continuation has been called on the
  opening bracket that opened a fourth nested level.
\<close>

theorem balance_between_minus_one_and_four:
  assumes "tokenize cfg cs = (out, s)"
  shows "- 1 \<le> balance s \<and> balance s \<le> 4
     \<and> (case out of
          Next st \<Rightarrow> 0 \<le> balance s \<and> balance s \<le> 3
        | Ok \<Rightarrow> balance s = - 1 \<or> balance s = 0
        | Nok c \<Rightarrow> 0 \<le> balance s \<and> (if balance s = 4 then c = Codes_openingSquareBracket else True)
        | Thrown \<Rightarrow> balance s = 0)"
proof -
  from assms have r: "reached cfg out s"
    by (rule tokenize_reached)
  show ?thesis
  proof (cases out)
    case (Next st)
    with r show ?thesis by (cases st) auto
  next
    case Ok
    with r show ?thesis by auto
  next
    case (Nok c)
    with r show ?thesis by (auto split: if_splits)
  next
    case Thrown
    with r show ?thesis by auto
  qed
qed

theorem balance_between_minus_one_and_four_witness:
  "fst (tokenize \<lparr>type = ''label'', markerType = ''marker'', stringType = ''string'',
             disallowEol = False\<rparr>
          [Codes_openingSquareBracket, Some 97, Codes_openingSquareBracket]) = Next S_label
   \<and> 0 \<le> balance (snd (tokenize \<lparr>type = ''label'', markerType = ''marker'',
             stringType = ''string'', disallowEol = False\<rparr>
          [Codes_openingSquareBracket, Some 97, Codes_openingSquareBracket]))
   \<and> balance (snd (tokenize \<lparr>type = ''label'', markerType = ''marker'',
             stringType = ''string'', disallowEol = False\<rparr>
          [Codes_openingSquareBracket, Some 97, Codes_openingSquareBracket])) \<le> 3"
proof -
  let ?t = "tokenize \<lparr>type = ''label'', markerType = ''marker'', stringType = ''string'',
             disallowEol = False\<rparr>
          [Codes_openingSquareBracket, Some 97, Codes_openingSquareBracket]"
  have f: "fst ?t = Next S_label"
    by (simp add: tokenize_eval)
  then have "?t = (Next S_label, snd ?t)"
    by (metis prod.collapse)
  from balance_between_minus_one_and_four [OF this] f show ?thesis
    by simp
qed

text \<open>
  The bounds \<open>[0, 3]\<close> do not hold at every step: the closing bracket that ends
  \<open>[a]\<close> leaves the counter at \<open>-1\<close>, and the fourth nested opening bracket of
  \<open>[[[[[\<close> leaves it at \<open>4\<close>.
\<close>

theorem balance_leaves_zero_to_three_counterexample:
  "balance (snd (tokenize \<lparr>type = ''label'', markerType = ''marker'',
       stringType = ''string'', disallowEol = False\<rparr>
       [Codes_openingSquareBracket, Some 97, Codes_closingSquareBracket])) = - 1
   \<and> balance (snd (tokenize \<lparr>type = ''label'', markerType = ''marker'',
       stringType = ''string'', disallowEol = False\<rparr>
       [Codes_openingSquareBracket, Codes_openingSquareBracket, Codes_openingSquareBracket,
        Codes_openingSquareBracket, Codes_openingSquareBracket])) = 4"
  by (simp add: tokenize_eval)

section \<open>End of input and line endings inside the brackets\<close>

text \<open>
  C9: whenever the tokenizer is past the opening bracket and still waiting for a unit,
  so that no closing bracket has ended the label yet, the end-of-input unit takes it to
  the failure continuation. The continuation is called on the end-of-input unit itself,
  and that unit is not consumed: the units consumed are those consumed before, and the
  only event that may be added closes the text chunk or opens the content string.
\<close>

theorem unterminated_label_fails:
  assumes "tokenize cfg cs = (Next st, s)" and "cs \<noteq> []"
  shows "tokenize cfg (cs @ Codes_EOF # rest) =
           (Nok Codes_EOF,
            s\<lparr>events := events s @
                (case st of S_afterStart \<Rightarrow> [Enter (stringType cfg)] | S_atBreak \<Rightarrow> []
                 | _ \<Rightarrow> [Exit ''chunkText''])\<rparr>)
     \<and> consumed (events (snd (tokenize cfg (cs @ Codes_EOF # rest)))) = consumed (events s)"
proof -
  from assms have ns: "st \<noteq> S_start"
    by (rule tokenize_not_start)
  have "tokenize cfg (cs @ Codes_EOF # rest) = run cfg st s (Codes_EOF # rest)"
    using assms(1) by (rule tokenize_append)
  also have "\<dots> = (Nok Codes_EOF,
            s\<lparr>events := events s @
                (case st of S_afterStart \<Rightarrow> [Enter (stringType cfg)] | S_atBreak \<Rightarrow> []
                 | _ \<Rightarrow> [Exit ''chunkText''])\<rparr>)"
    by (simp add: feed_EOF [OF ns])
  finally show ?thesis
    by (cases st) simp_all
qed

theorem unterminated_label_fails_witness:
  "tokenize \<lparr>type = ''label'', markerType = ''marker'', stringType = ''string'',
             disallowEol = False\<rparr>
     ([Codes_openingSquareBracket, Some 97, Some 98, Some 99] @ Codes_EOF # [])
   = (Nok Codes_EOF, \<lparr>size_n = 0, balance = 0, events =
       [Enter ''label'', Enter ''marker'', Consume (Some 91), Exit ''marker'',
        Enter ''string'', Enter ''chunkText'', Consume (Some 97), Consume (Some 98),
        Consume (Some 99), Exit ''chunkText'']\<rparr>)"
proof -
  let ?cfg = "\<lparr>type = ''label'', markerType = ''marker'', stringType = ''string'',
             disallowEol = False\<rparr>"
  let ?s = "\<lparr>size_n = 0, balance = 0, events =
       [Enter ''label'', Enter ''marker'', Consume (Some 91), Exit ''marker'',
        Enter ''string'', Enter ''chunkText'', Consume (Some 97), Consume (Some 98),
        Consume (Some 99)]\<rparr>"
  have h: "tokenize ?cfg [Codes_openingSquareBracket, Some 97, Some 98, Some 99]
             = (Next S_label, ?s)"
    by (simp add: tokenize_eval)
  have ne: "[Codes_openingSquareBracket, Some 97, Some 98, Some 99] \<noteq> []"
    by simp
  from unterminated_label_fails [OF h ne, of "[]"] show ?thesis
    by simp
qed

text \<open>
  C8, as amended: when a line-ending unit arrives inside the brackets, the tokenizer
  reaches the failure continuation at that unit if \<open>disallowEol\<close> is true. If
  \<open>disallowEol\<close> is false and the size counter is at most 999, the unit is consumed
  inside an enter/exit pair of a \<open>lineEnding\<close> span and scanning resumes at
  \<open>atBreak\<close>. If the size counter exceeds 999, the tokenizer reaches the failure
  continuation at that unit whatever the flag says.
\<close>

theorem line_ending_policy:
  assumes "tokenize cfg cs = (Next st, s)" and "cs \<noteq> []" and "markdownLineEnding c"
  shows "tokenize cfg (cs @ c # rest) =
          (if disallowEol cfg \<or> 999 < size_n s
           then (Nok c,
                 s\<lparr>events := events s @
                     (case st of S_afterStart \<Rightarrow> [Enter (stringType cfg)]
                      | S_atBreak \<Rightarrow> [] | _ \<Rightarrow> [Exit ''chunkText''])\<rparr>)
           else run cfg S_atBreak
                 (s\<lparr>events := events s @
                     (case st of S_afterStart \<Rightarrow> [Enter (stringType cfg)]
                      | S_atBreak \<Rightarrow> [] | _ \<Rightarrow> [Exit ''chunkText'']) @
                     [Enter ''lineEnding'', Consume c, Exit ''lineEnding'']\<rparr>) rest)"
proof -
  from assms(1,2) have ns: "st \<noteq> S_start"
    by (rule tokenize_not_start)
  have "tokenize cfg (cs @ c # rest) = run cfg st s (c # rest)"
    using assms(1) by (rule tokenize_append)
  then show ?thesis
    by (simp add: feed_line_ending [OF assms(3) ns])
qed

theorem line_ending_policy_witness:
  "tokenize \<lparr>type = ''label'', markerType = ''marker'', stringType = ''string'',
             disallowEol = True\<rparr>
     ([Codes_openingSquareBracket, Some 97] @ Some (- 4) # [Some 98])
   = (Nok (Some (- 4)), \<lparr>size_n = 0, balance = 0, events =
       [Enter ''label'', Enter ''marker'', Consume (Some 91), Exit ''marker'',
        Enter ''string'', Enter ''chunkText'', Consume (Some 97), Exit ''chunkText'']\<rparr>)
   \<and> tokenize \<lparr>type = ''label'', markerType = ''marker'', stringType = ''string'',
             disallowEol = False\<rparr>
     ([Codes_openingSquareBracket, Some 97] @ Some (- 4) # [])
   = (Next S_atBreak, \<lparr>size_n = 0, balance = 0, events =
       [Enter ''label'', Enter ''marker'', Consume (Some 91), Exit ''marker'',
        Enter ''string'', Enter ''chunkText'', Consume (Some 97), Exit ''chunkText'',
        Enter ''lineEnding'', Consume (Some (- 4)), Exit ''lineEnding'']\<rparr>)"
proof -
  let ?s = "\<lparr>size_n = 0, balance = 0, events =
       [Enter ''label'', Enter ''marker'', Consume (Some 91), Exit ''marker'',
        Enter ''string'', Enter ''chunkText'', Consume (Some 97)]\<rparr>"
  have h1: "tokenize \<lparr>type = ''label'', markerType = ''marker'', stringType = ''string'',
             disallowEol = True\<rparr> [Codes_openingSquareBracket, Some 97] = (Next S_label, ?s)"
    by (simp add: tokenize_eval)
  have h2: "tokenize \<lparr>type = ''label'', markerType = ''marker'', stringType = ''string'',
             disallowEol = False\<rparr> [Codes_openingSquareBracket, Some 97] = (Next S_label, ?s)"
    by (simp add: tokenize_eval)
  have ne: "[Codes_openingSquareBracket, Some 97] \<noteq> []"
    by simp
  have le: "markdownLineEnding (Some (- 4))"
    by (simp add: markdownLineEnding_def)
  from line_ending_policy [OF h1 ne le, of "[Some 98]"] line_ending_policy [OF h2 ne le, of "[]"]
  show ?thesis
    by simp
qed

text \<open>
  With \<open>disallowEol\<close> false, a line ending after a thousand escaped brackets still
  takes the tokenizer to the failure continuation.
\<close>

theorem line_ending_after_size_ceiling_counterexample:
  "fst (tokenize \<lparr>type = ''label'', markerType = ''marker'', stringType = ''string'',
             disallowEol = False\<rparr>
     (([Codes_openingSquareBracket, Some 97] @ escaped_brackets 1000) @ [Some (- 4)]))
   = Nok (Some (- 4))"
proof -
  have "(1000::nat) \<le> 1000"
    by simp
  then show ?thesis
    by (rule tokenize_size_ceiling [OF tokenize_escaped_brackets]) simp
qed

section \<open>The size counter\<close>

lemma atBreak_label_size:
  "size_n (snd (atBreak cfg c s)) = size_n s" "size_n (snd (label cfg c s)) = size_n s"
  by (auto simp: unfold_all split: option.splits)

lemma feed_size:
  "size_n (snd (feed cfg st c s)) =
     size_n s + (if st = S_labelEscape \<and> (c = Codes_openingSquareBracket \<or> c = Codes_backSlash
                     \<or> c = Codes_closingSquareBracket) then 1 else 0)"
proof (cases st)
  case S_start
  then show ?thesis by (simp add: state_fn_defs)
next
  case S_afterStart
  then show ?thesis
    using atBreak_label_size(1) [of cfg c "enter (stringType cfg) s"]
    by (simp add: state_fn_defs)
next
  case S_atBreak
  then show ?thesis by (simp add: atBreak_label_size)
next
  case S_label
  then show ?thesis by (simp add: atBreak_label_size)
next
  case S_labelEscape
  then show ?thesis
    using atBreak_label_size(2) [of cfg c s]
    by (simp add: state_fn_defs)
qed

lemma tokenize_ordinary:
  assumes "\<forall>c\<in>set xs. ordinary c"
  shows "tokenize cfg (Codes_openingSquareBracket # xs @ Codes_closingSquareBracket # rest) =
     (Ok, \<lparr>size_n = 0, balance = (if xs = [] then 0 else - 1),
           events = [Enter (type cfg), Enter (markerType cfg),
                     Consume Codes_openingSquareBracket, Exit (markerType cfg)] @
                    (if xs = [] then []
                     else Enter (stringType cfg) # Enter ''chunkText'' # map Consume xs @
                          [Exit ''chunkText'', Exit (stringType cfg)]) @
                    [Enter (markerType cfg), Consume Codes_closingSquareBracket,
                     Exit (markerType cfg), Exit (type cfg)]\<rparr>)"
proof (cases xs)
  case Nil
  then show ?thesis by (simp add: tokenize_eval)
next
  case (Cons x ys)
  with assms have x: "ordinary x" and ys: "\<forall>c\<in>set ys. ordinary c"
    by simp_all
  let ?s1 = "\<lparr>size_n = 0, balance = 0,
           events = [Enter (type cfg), Enter (markerType cfg),
                     Consume Codes_openingSquareBracket, Exit (markerType cfg),
                     Enter (stringType cfg), Enter ''chunkText'', Consume x]\<rparr>"
  from x have "tokenize cfg [Codes_openingSquareBracket, x] = (Next S_label, ?s1)"
    by (auto simp: ordinary_def tokenize_eval)
  then have "tokenize cfg ([Codes_openingSquareBracket, x] @ ys @ Codes_closingSquareBracket # rest)
      = run cfg S_label ?s1 (ys @ Codes_closingSquareBracket # rest)"
    by (rule tokenize_append)
  also have "\<dots> = run cfg S_label (?s1\<lparr>events := events ?s1 @ map Consume ys\<rparr>)
       (Codes_closingSquareBracket # rest)"
    using run_ordinary [OF ys, of ?s1 cfg] by (simp add: run_append)
  also have "\<dots> = (Ok, \<lparr>size_n = 0, balance = - 1,
           events = [Enter (type cfg), Enter (markerType cfg),
                     Consume Codes_openingSquareBracket, Exit (markerType cfg),
                     Enter (stringType cfg), Enter ''chunkText'', Consume x] @ map Consume ys @
                    [Exit ''chunkText'', Exit (stringType cfg),
                     Enter (markerType cfg), Consume Codes_closingSquareBracket,
                     Exit (markerType cfg), Exit (type cfg)]\<rparr>)"
    by (simp add: unfold_all)
  finally show ?thesis
    using Cons by simp
qed

lemma escaped_brackets_add:
  "escaped_brackets (m + n) = escaped_brackets m @ escaped_brackets n"
  by (simp add: escaped_brackets_def replicate_add)

lemma tokenize_escaped_then_closing:
  "fst (tokenize cfg ([Codes_openingSquareBracket, Some 97] @ escaped_brackets n
          @ Codes_closingSquareBracket # rest)) =
     (if n \<le> 999 then Ok
      else if n = 1000 then Nok Codes_closingSquareBracket else Nok Codes_backSlash)"
proof (cases "n \<le> 1000")
  case True
  note t = tokenize_escaped_brackets [OF True, of cfg]
  have r: "tokenize cfg (([Codes_openingSquareBracket, Some 97] @ escaped_brackets n)
          @ Codes_closingSquareBracket # rest)
      = run cfg S_label (snd (tokenize cfg ([Codes_openingSquareBracket, Some 97] @ escaped_brackets n)))
          (Codes_closingSquareBracket # rest)"
    using t by (intro tokenize_append) simp
  show ?thesis
  proof (cases "n \<le> 999")
    case True
    with r show ?thesis
      unfolding t by (simp add: unfold_all)
  next
    case False
    with \<open>n \<le> 1000\<close> have n: "n = 1000" by simp
    have "fst (tokenize cfg (([Codes_openingSquareBracket, Some 97] @ escaped_brackets n)
          @ Codes_closingSquareBracket # rest)) = Nok Codes_closingSquareBracket"
      by (rule tokenize_size_ceiling [OF t]) (simp add: n)
    with n show ?thesis by simp
  qed
next
  case False
  then obtain k where n: "n = 1000 + Suc k"
    by (metis add_Suc_right less_imp_Suc_add not_le)
  have "(1000::nat) \<le> 1000" by simp
  note t = tokenize_escaped_brackets [OF this, of cfg]
  have "fst (tokenize cfg (([Codes_openingSquareBracket, Some 97] @ escaped_brackets 1000)
          @ Codes_backSlash # Codes_closingSquareBracket # escaped_brackets k @ Codes_closingSquareBracket # rest)) = Nok Codes_backSlash"
    by (rule tokenize_size_ceiling [OF t]) simp
  moreover have "escaped_brackets n =
      escaped_brackets 1000 @ Codes_backSlash # Codes_closingSquareBracket # escaped_brackets k"
    unfolding n escaped_brackets_add by (simp add: escaped_brackets_def)
  ultimately show ?thesis
    using False by simp
qed


text \<open>
  C3: the size counter is raised only by \<open>labelEscape\<close> consuming an escaped bracket
  or backslash, and by exactly one each time; no other unit in any state changes it.
  Once more than 999 escaped characters have been consumed, the next unit, a closing
  bracket included, takes the tokenizer to the failure continuation: after \<open>[a\<close>,
  \<open>n\<close> escaped closing brackets and a closing bracket succeed when \<open>n\<close> is at most
  999 and fail otherwise. A label of any number of ordinary units succeeds with the
  size counter still at zero.
\<close>

theorem size_counter_counts_escapes_only:
  "size_n (snd (feed cfg st c s)) =
     size_n s + (if st = S_labelEscape \<and> (c = Codes_openingSquareBracket \<or> c = Codes_backSlash
                     \<or> c = Codes_closingSquareBracket) then 1 else 0)
   \<and> (tokenize cfg cs = (Next st', s') \<and> 999 < size_n s' \<longrightarrow>
        fst (tokenize cfg (cs @ c' # rest)) = Nok c')
   \<and> fst (tokenize cfg ([Codes_openingSquareBracket, Some 97] @ escaped_brackets n
          @ Codes_closingSquareBracket # rest)) =
       (if n \<le> 999 then Ok
        else if n = 1000 then Nok Codes_closingSquareBracket else Nok Codes_backSlash)
   \<and> ((\<forall>x\<in>set xs. ordinary x) \<longrightarrow>
        fst (tokenize cfg (Codes_openingSquareBracket # xs @ Codes_closingSquareBracket # rest))
          = Ok
        \<and> size_n (snd (tokenize cfg
              (Codes_openingSquareBracket # xs @ Codes_closingSquareBracket # rest))) = 0)"
  using feed_size [of cfg st c s] tokenize_size_ceiling [of cfg cs st' s' c' rest]
    tokenize_escaped_then_closing [of cfg n rest] tokenize_ordinary [of xs cfg rest]
  by simp

theorem size_counter_counts_escapes_only_witness:
  "fst (tokenize \<lparr>type = ''label'', markerType = ''marker'', stringType = ''string'',
             disallowEol = False\<rparr>
     (([Codes_openingSquareBracket, Some 97] @ escaped_brackets 1000)
        @ Codes_closingSquareBracket # [])) = Nok Codes_closingSquareBracket
   \<and> fst (tokenize \<lparr>type = ''label'', markerType = ''marker'', stringType = ''string'',
             disallowEol = False\<rparr>
     (Codes_openingSquareBracket # replicate 2000 (Some 97) @ Codes_closingSquareBracket # []))
     = Ok"
proof -
  let ?cfg = "\<lparr>type = ''label'', markerType = ''marker'', stringType = ''string'',
             disallowEol = False\<rparr>"
  have "(1000::nat) \<le> 1000"
    by simp
  note t = tokenize_escaped_brackets [OF this, of ?cfg]
  have o: "\<forall>x\<in>set (replicate 2000 (Some 97)). ordinary x"
    by (simp add: ordinary_def Codes_defs markdownLineEnding_def)
  from size_counter_counts_escapes_only
         [of ?cfg _ _ _ "[Codes_openingSquareBracket, Some 97] @ escaped_brackets 1000"
             S_label _ Codes_closingSquareBracket "[]" _ "replicate 2000 (Some 97)"]
       t o
  show ?thesis
    by simp
qed

section \<open>Brackets, escapes and the empty label\<close>

text \<open>
  C5, as amended: an opening bracket that arrives below the size ceiling while the
  tokenizer waits in \<open>afterStart\<close>, \<open>atBreak\<close> or \<open>label\<close> raises the balance
  counter by one, and the parse goes to the failure continuation exactly when that
  raises the counter above 3, that is when the counter was already 3. Otherwise the
  bracket is consumed as content and the state is \<open>label\<close>. The statement is about
  the counter, which the bracket that opens the label does not raise; it says nothing
  about how deeply the brackets of the input are really nested. On the three inputs
  below: \<open>[a[b[c[d[e]]]]]\<close> reaches the failure continuation at its fifth opening
  bracket, with \<open>[a[b[c[d\<close> consumed, while \<open>[a[b[c[d]]]]\<close> and \<open>[a[b[c]]]\<close>
  reach the success continuation. (Past the size ceiling \<open>label\<close> hands the unit
  back to \<open>atBreak\<close>, which fails without touching the counter.)
\<close>

theorem fourth_nested_opening_bracket_fails:
  "(tokenize cfg cs = (Next st, s) \<and> st \<in> {S_afterStart, S_atBreak, S_label}
      \<and> size_n s \<le> 999 \<longrightarrow>
      fst (tokenize cfg (cs @ [Codes_openingSquareBracket])) =
        (if balance s = 3 then Nok Codes_openingSquareBracket else Next S_label)
      \<and> balance (snd (tokenize cfg (cs @ [Codes_openingSquareBracket]))) = balance s + 1
      \<and> consumed (events (snd (tokenize cfg (cs @ [Codes_openingSquareBracket])))) =
          consumed (events s) @ (if balance s = 3 then [] else [Codes_openingSquareBracket]))
   \<and> label cfg Codes_openingSquareBracket s =
     (if 999 < size_n s then (Nok Codes_openingSquareBracket, exit_span ''chunkText'' s)
      else if 3 < balance s + 1
        then (Nok Codes_openingSquareBracket, s\<lparr>balance := balance s + 1\<rparr>)
      else (Next S_label, consume Codes_openingSquareBracket (s\<lparr>balance := balance s + 1\<rparr>)))
   \<and> fst (tokenize cfg
       [Codes_openingSquareBracket, Some 97, Codes_openingSquareBracket, Some 98,
        Codes_openingSquareBracket, Some 99, Codes_openingSquareBracket, Some 100,
        Codes_openingSquareBracket, Some 101, Codes_closingSquareBracket,
        Codes_closingSquareBracket, Codes_closingSquareBracket, Codes_closingSquareBracket,
        Codes_closingSquareBracket]) = Nok Codes_openingSquareBracket
   \<and> consumed (events (snd (tokenize cfg
       [Codes_openingSquareBracket, Some 97, Codes_openingSquareBracket, Some 98,
        Codes_openingSquareBracket, Some 99, Codes_openingSquareBracket, Some 100,
        Codes_openingSquareBracket, Some 101, Codes_closingSquareBracket,
        Codes_closingSquareBracket, Codes_closingSquareBracket, Codes_closingSquareBracket,
        Codes_closingSquareBracket]))) =
       [Codes_openingSquareBracket, Some 97, Codes_openingSquareBracket, Some 98,
        Codes_openingSquareBracket, Some 99, Codes_openingSquareBracket, Some 100]
   \<and> fst (tokenize cfg
       [Codes_openingSquareBracket, Some 97, Codes_openingSquareBracket, Some 98,
        Codes_openingSquareBracket, Some 99, Codes_openingSquareBracket, Some 100,
        Codes_closingSquareBracket, Codes_closingSquareBracket, Codes_closingSquareBracket,
        Codes_closingSquareBracket]) = Ok
   \<and> fst (tokenize cfg
       [Codes_openingSquareBracket, Some 97, Codes_openingSquareBracket, Some 98,
        Codes_openingSquareBracket, Some 99, Codes_closingSquareBracket,
        Codes_closingSquareBracket, Codes_closingSquareBracket]) = Ok"
proof -
  have "tokenize cfg cs = (Next st, s) \<and> st \<in> {S_afterStart, S_atBreak, S_label}
      \<and> size_n s \<le> 999 \<longrightarrow>
      fst (tokenize cfg (cs @ [Codes_openingSquareBracket])) =
        (if balance s = 3 then Nok Codes_openingSquareBracket else Next S_label)
      \<and> balance (snd (tokenize cfg (cs @ [Codes_openingSquareBracket]))) = balance s + 1
      \<and> consumed (events (snd (tokenize cfg (cs @ [Codes_openingSquareBracket])))) =
          consumed (events s) @ (if balance s = 3 then [] else [Codes_openingSquareBracket])"
    using tokenize_opening_bracket [of cfg cs st s] by blast
  then show ?thesis
    by (simp add: tokenize_eval)
qed

theorem fourth_nested_opening_bracket_fails_witness:
  "fst (tokenize \<lparr>type = ''label'', markerType = ''marker'', stringType = ''string'',
             disallowEol = False\<rparr>
       ([Codes_openingSquareBracket, Codes_openingSquareBracket, Codes_openingSquareBracket,
         Codes_openingSquareBracket] @ [Codes_openingSquareBracket]))
     = Nok Codes_openingSquareBracket
   \<and> fst (tokenize \<lparr>type = ''label'', markerType = ''marker'', stringType = ''string'',
             disallowEol = False\<rparr>
       ([Codes_openingSquareBracket, Codes_openingSquareBracket, Codes_openingSquareBracket]
         @ [Codes_openingSquareBracket]))
     = Next S_label"
proof -
  let ?cfg = "\<lparr>type = ''label'', markerType = ''marker'', stringType = ''string'',
             disallowEol = False\<rparr>"
  let ?s = "\<lparr>size_n = 0, balance = 3, events =
       [Enter ''label'', Enter ''marker'', Consume (Some 91), Exit ''marker'',
        Enter ''string'', Enter ''chunkText'', Consume (Some 91), Consume (Some 91),
        Consume (Some 91)]\<rparr>"
  let ?s' = "\<lparr>size_n = 0, balance = 2, events =
       [Enter ''label'', Enter ''marker'', Consume (Some 91), Exit ''marker'',
        Enter ''string'', Enter ''chunkText'', Consume (Some 91), Consume (Some 91)]\<rparr>"
  have h: "tokenize ?cfg [Codes_openingSquareBracket, Codes_openingSquareBracket,
             Codes_openingSquareBracket, Codes_openingSquareBracket] = (Next S_label, ?s)"
    by (simp add: tokenize_eval)
  have h': "tokenize ?cfg [Codes_openingSquareBracket, Codes_openingSquareBracket,
             Codes_openingSquareBracket] = (Next S_label, ?s')"
    by (simp add: tokenize_eval)
  have z: "size_n ?s \<le> 999" "size_n ?s' \<le> 999" "balance ?s = 3" "balance ?s' \<noteq> 3"
    by simp_all
  have m: "S_label \<in> {S_afterStart, S_atBreak, S_label}"
    by simp
  have "fst (tokenize ?cfg
       ([Codes_openingSquareBracket, Codes_openingSquareBracket, Codes_openingSquareBracket,
         Codes_openingSquareBracket] @ [Codes_openingSquareBracket]))
     = (if balance ?s = 3 then Nok Codes_openingSquareBracket else Next S_label)"
    using fourth_nested_opening_bracket_fails [of ?cfg _ S_label ?s] h z(1) m by blast
  moreover have "fst (tokenize ?cfg
       ([Codes_openingSquareBracket, Codes_openingSquareBracket, Codes_openingSquareBracket]
         @ [Codes_openingSquareBracket]))
     = (if balance ?s' = 3 then Nok Codes_openingSquareBracket else Next S_label)"
    using fourth_nested_opening_bracket_fails [of ?cfg _ S_label ?s'] h' z(2) m by blast
  ultimately show ?thesis
    using z(3,4) by simp
qed

text \<open>
  The input \<open>[a[b[c[d]]]]\<close> has three opening brackets inside the label, the counter
  stops at 3, and the parse reaches the success continuation with every unit consumed.
\<close>

theorem four_opening_brackets_counterexample:
  "tokenize \<lparr>type = ''label'', markerType = ''marker'', stringType = ''string'',
             disallowEol = False\<rparr>
       [Codes_openingSquareBracket, Some 97, Codes_openingSquareBracket, Some 98,
        Codes_openingSquareBracket, Some 99, Codes_openingSquareBracket, Some 100,
        Codes_closingSquareBracket, Codes_closingSquareBracket, Codes_closingSquareBracket,
        Codes_closingSquareBracket]
   = (Ok, \<lparr>size_n = 0, balance = - 1, events =
       [Enter ''label'', Enter ''marker'', Consume (Some 91), Exit ''marker'',
        Enter ''string'', Enter ''chunkText'', Consume (Some 97), Consume (Some 91),
        Consume (Some 98), Consume (Some 91), Consume (Some 99), Consume (Some 91),
        Consume (Some 100), Consume (Some 93), Consume (Some 93), Consume (Some 93),
        Exit ''chunkText'', Exit ''string'', Enter ''marker'', Consume (Some 93),
        Exit ''marker'', Exit ''label'']\<rparr>)"
  by (simp add: tokenize_eval)

text \<open>
  C6: after \<open>label\<close> has consumed a backslash, \<open>labelEscape\<close> consumes an opening
  bracket, a closing bracket or a backslash as content and raises the size counter by
  exactly one; any other unit is given to \<open>label\<close> as it is, so that an ordinary unit
  is consumed once and the state is \<open>label\<close> again. The input \<open>[a\]b]\<close> succeeds
  with the four units \<open>a\<close>, backslash, \<open>]\<close>, \<open>b\<close> in one text chunk and the size
  counter at one; \<open>[a\b]\<close> succeeds with \<open>a\<close>, backslash, \<open>b\<close> in one text chunk
  and the size counter at zero.
\<close>

theorem labelEscape_behaviour:
  "labelEscape cfg c s =
     (if c = Codes_openingSquareBracket \<or> c = Codes_backSlash \<or> c = Codes_closingSquareBracket
      then (Next S_label, s\<lparr>events := events s @ [Consume c], size_n := size_n s + 1\<rparr>)
      else label cfg c s)
   \<and> (ordinary c \<and> size_n s \<le> 999 \<longrightarrow>
        labelEscape cfg c s = (Next S_label, s\<lparr>events := events s @ [Consume c]\<rparr>))
   \<and> (size_n s \<le> 999 \<longrightarrow>
        label cfg Codes_backSlash s =
          (Next S_labelEscape, s\<lparr>events := events s @ [Consume Codes_backSlash]\<rparr>))
   \<and> tokenize cfg [Codes_openingSquareBracket, Some 97, Codes_backSlash,
         Codes_closingSquareBracket, Some 98, Codes_closingSquareBracket]
     = (Ok, \<lparr>size_n = 1, balance = - 1, events =
         [Enter (type cfg), Enter (markerType cfg), Consume (Some 91), Exit (markerType cfg),
          Enter (stringType cfg), Enter ''chunkText'', Consume (Some 97), Consume (Some 92),
          Consume (Some 93), Consume (Some 98), Exit ''chunkText'', Exit (stringType cfg),
          Enter (markerType cfg), Consume (Some 93), Exit (markerType cfg),
          Exit (type cfg)]\<rparr>)
   \<and> tokenize cfg [Codes_openingSquareBracket, Some 97, Codes_backSlash, Some 98,
         Codes_closingSquareBracket]
     = (Ok, \<lparr>size_n = 0, balance = - 1, events =
         [Enter (type cfg), Enter (markerType cfg), Consume (Some 91), Exit (markerType cfg),
          Enter (stringType cfg), Enter ''chunkText'', Consume (Some 97), Consume (Some 92),
          Consume (Some 98), Exit ''chunkText'', Exit (stringType cfg),
          Enter (markerType cfg), Consume (Some 93), Exit (markerType cfg),
          Exit (type cfg)]\<rparr>)"
proof -
  have "labelEscape cfg c s =
     (if c = Codes_openingSquareBracket \<or> c = Codes_backSlash \<or> c = Codes_closingSquareBracket
      then (Next S_label, s\<lparr>events := events s @ [Consume c], size_n := size_n s + 1\<rparr>)
      else label cfg c s)"
    by (simp add: labelEscape_def consume_def)
  moreover have "ordinary c \<and> size_n s \<le> 999 \<longrightarrow>
        labelEscape cfg c s = (Next S_label, s\<lparr>events := events s @ [Consume c]\<rparr>)"
    by (auto simp: ordinary_def unfold_all)
  moreover have "size_n s \<le> 999 \<longrightarrow>
        label cfg Codes_backSlash s =
          (Next S_labelEscape, s\<lparr>events := events s @ [Consume Codes_backSlash]\<rparr>)"
    by (simp add: unfold_all)
  ultimately show ?thesis
    by (simp add: tokenize_eval)
qed

theorem labelEscape_behaviour_witness:
  "labelEscape \<lparr>type = ''label'', markerType = ''marker'', stringType = ''string'',
             disallowEol = False\<rparr> (Some 98)
      \<lparr>size_n = 0, balance = 0, events = [Consume Codes_backSlash]\<rparr>
   = (Next S_label,
      \<lparr>size_n = 0, balance = 0, events = [Consume Codes_backSlash, Consume (Some 98)]\<rparr>)
   \<and> label \<lparr>type = ''label'', markerType = ''marker'', stringType = ''string'',
             disallowEol = False\<rparr> Codes_backSlash \<lparr>size_n = 0, balance = 0, events = []\<rparr>
   = (Next S_labelEscape, \<lparr>size_n = 0, balance = 0, events = [Consume Codes_backSlash]\<rparr>)"
proof -
  let ?cfg = "\<lparr>type = ''label'', markerType = ''marker'', stringType = ''string'',
             disallowEol = False\<rparr>"
  let ?s0 = "\<lparr>size_n = 0, balance = 0, events = []\<rparr>"
  let ?s1 = "\<lparr>size_n = 0, balance = 0, events = [Consume Codes_backSlash]\<rparr>"
  have o: "ordinary (Some 98)"
    by (simp add: ordinary_def Codes_defs markdownLineEnding_def)
  have z0: "size_n ?s0 \<le> 999" and z1: "size_n ?s1 \<le> 999"
    by simp_all
  have "labelEscape ?cfg (Some 98) ?s1
          = (Next S_label, ?s1\<lparr>events := events ?s1 @ [Consume (Some 98)]\<rparr>)"
    using labelEscape_behaviour [of ?cfg "Some 98" ?s1] o z1 by blast
  moreover have "label ?cfg Codes_backSlash ?s0
          = (Next S_labelEscape, ?s0\<lparr>events := events ?s0 @ [Consume Codes_backSlash]\<rparr>)"
    using labelEscape_behaviour [of ?cfg "Some 98" ?s0] z0 by blast
  ultimately show ?thesis
    by simp
qed

text \<open>
  C7: the empty label is accepted. When the unit after the opening bracket is a closing
  bracket, \<open>afterStart\<close> emits the marker span around the consumed bracket, exits the
  label span and returns the success continuation. On \<open>[]\<close>, whatever follows, the
  whole event stream is the label span holding the two marker spans: the content-string
  span is never entered and the counters stay at zero.
\<close>

theorem empty_label_accepted:
  "afterStart cfg Codes_closingSquareBracket s =
     (Ok, s\<lparr>events := events s @
            [Enter (markerType cfg), Consume Codes_closingSquareBracket,
             Exit (markerType cfg), Exit (type cfg)]\<rparr>)
   \<and> tokenize cfg (Codes_openingSquareBracket # Codes_closingSquareBracket # rest) =
     (Ok, \<lparr>size_n = 0, balance = 0, events =
        [Enter (type cfg), Enter (markerType cfg), Consume Codes_openingSquareBracket,
         Exit (markerType cfg), Enter (markerType cfg), Consume Codes_closingSquareBracket,
         Exit (markerType cfg), Exit (type cfg)]\<rparr>)"
  by (simp add: tokenize_eval)

text \<open>
  C1: what \<open>atBreak\<close> does with a closing bracket. With the balance counter at zero
  the bracket ends the label. With the counter nonzero, \<open>atBreak\<close> lowers it by one and
  falls into \<open>label\<close>, which tests and lowers it a second time: from one, the bracket
  ends the label after an empty text chunk; from two or three, the bracket is consumed
  as content and the counter is two lower. On \<open>[a[\<close>, a line feed, \<open>]b]]\<close> with line
  endings allowed, the first closing bracket after the line feed ends the label and the
  units \<open>b]]\<close> are never fed to the tokenizer.
\<close>

theorem atBreak_closing_bracket_decrements_twice:
  "atBreak cfg Codes_closingSquareBracket s =
     (if 999 < size_n s then (Nok Codes_closingSquareBracket, s)
      else if balance s = 0
        then atClosingBrace cfg Codes_closingSquareBracket (s\<lparr>balance := - 1\<rparr>)
      else if balance s = 1
        then atClosingBrace cfg Codes_closingSquareBracket
               (exit_span ''chunkText'' (enter ''chunkText'' (s\<lparr>balance := - 1\<rparr>)))
      else (Next S_label,
            consume Codes_closingSquareBracket
              (enter ''chunkText'' (s\<lparr>balance := balance s - 2\<rparr>))))
   \<and> tokenize (cfg\<lparr>disallowEol := False\<rparr>)
       [Codes_openingSquareBracket, Some 97, Codes_openingSquareBracket, Some (- 4),
        Codes_closingSquareBracket, Some 98, Codes_closingSquareBracket,
        Codes_closingSquareBracket]
     = (Ok, \<lparr>size_n = 0, balance = - 1, events =
         [Enter (type cfg), Enter (markerType cfg), Consume (Some 91), Exit (markerType cfg),
          Enter (stringType cfg), Enter ''chunkText'', Consume (Some 97), Consume (Some 91),
          Exit ''chunkText'', Enter ''lineEnding'', Consume (Some (- 4)), Exit ''lineEnding'',
          Enter ''chunkText'', Exit ''chunkText'', Exit (stringType cfg),
          Enter (markerType cfg), Consume (Some 93), Exit (markerType cfg),
          Exit (type cfg)]\<rparr>)"
  by (simp add: tokenize_eval)

end
